theory Spec2Isabelle
  imports Main "HOL-Library.AList"
begin

section \<open>JavaScript values, exceptions and objects\<close>

text \<open>
  The route constructor of \<^verbatim>\<open>lib/route.js\<close> works on plain JavaScript objects. The
  own properties of an object are an association list in insertion order (property names
  are taken not to be canonical array indices, which JavaScript enumerates first). Strings
  are \<^typ>\<open>string\<close>; a character stands for one code unit below 256. Numbers are
  integers. \<open>JFunction\<close> is a function object, known by its name.
\<close>

datatype jsval =
    JUndefined
  | JNull
  | JBool bool
  | JNum int
  | JStr string
  | JArr "jsval list"
  | JObj "(string \<times> jsval) list"
  | JFunction string

text \<open>
  What a \<^verbatim>\<open>throw\<close> carries: the two \<^verbatim>\<open>Error\<close>s the constructor raises (with their
  messages), the \<^verbatim>\<open>TypeError\<close> of the runtime, the rejection of a pattern by
  \<^verbatim>\<open>new RegExp\<close>, and whatever a type object or the type registry throws.
  \<open>Unmodelled\<close> is no exception of the program: it marks the two places where the code
  goes on in a way the model does not follow (a prototype is replaced, or
  \<^verbatim>\<open>Object.prototype\<close> itself has been written to).
\<close>

datatype js_error =
    Error string
  | TypeError
  | RegExpRejected
  | Thrown string
  | Unmodelled

abbreviation (input) bslash :: char where
  "bslash \<equiv> CHR 0x5C"

abbreviation (input) quote :: char where
  "quote \<equiv> CHR 0x27"

text \<open>
  A property read goes through the prototype chain. What every object created by a
  literal \<^verbatim>\<open>{}\<close> inherits from \<^verbatim>\<open>Object.prototype\<close>: the built-in functions, and the
  accessor \<^verbatim>\<open>__proto__\<close>, whose value on such an object is \<^verbatim>\<open>Object.prototype\<close> itself
  (an object without enumerable properties). The environment is taken as the runtime
  ships it: nobody else has added to \<^verbatim>\<open>Object.prototype\<close>.
\<close>

definition Object_prototype :: "(string \<times> jsval) list" where
  "Object_prototype =
     map (\<lambda>n. (n, JFunction n))
       [''constructor'', ''toString'', ''toLocaleString'', ''valueOf'', ''hasOwnProperty'',
        ''isPrototypeOf'', ''propertyIsEnumerable'', ''__defineGetter__'',
        ''__defineSetter__'', ''__lookupGetter__'', ''__lookupSetter__''] @
     [(''__proto__'', JObj [])]"

definition own_key :: "string \<Rightarrow> (string \<times> 'v) list \<Rightarrow> bool" where
  "own_key k fs = (k \<in> set (map fst fs))"

definition inherited_key :: "string \<Rightarrow> bool" where
  "inherited_key k = own_key k Object_prototype"

text \<open>
  An object that the caller hands in (a request body, a query) is its own properties and
  the properties it inherits, nearest first; \<open>ordinary fs\<close> is the object a literal
  creates, with the own properties \<open>fs\<close>. \<open>has_key\<close> is \<^verbatim>\<open>key in obj\<close> and \<open>lookup\<close>
  is \<^verbatim>\<open>obj[key]\<close>.
\<close>

record jsobject =
  own_props :: "(string \<times> jsval) list"
  inherited_props :: "(string \<times> jsval) list"

definition ordinary :: "(string \<times> jsval) list \<Rightarrow> jsobject" where
  "ordinary fs = \<lparr>own_props = fs, inherited_props = Object_prototype\<rparr>"

definition has_key :: "string \<Rightarrow> jsobject \<Rightarrow> bool" where
  "has_key k obj = (own_key k (own_props obj) \<or> own_key k (inherited_props obj))"

definition lookup :: "jsobject \<Rightarrow> string \<Rightarrow> jsval" where
  "lookup obj k =
     (case map_of (own_props obj) k of
        Some v \<Rightarrow> v
      | None \<Rightarrow> (case map_of (inherited_props obj) k of Some v \<Rightarrow> v | None \<Rightarrow> JUndefined))"

text \<open>
  \<^verbatim>\<open>obj[key] = v\<close> on an object created by \<^verbatim>\<open>{}\<close> in the code, given by its own
  properties. The name \<^verbatim>\<open>__proto__\<close> reaches the setter of \<^verbatim>\<open>Object.prototype\<close>, which
  ignores a primitive value and otherwise replaces the prototype of the object; the
  model does not follow the object from there (\<open>None\<close>).
\<close>

definition is_primitive :: "jsval \<Rightarrow> bool" where
  "is_primitive v =
     (case v of
        JUndefined \<Rightarrow> True
      | JBool b \<Rightarrow> True
      | JNum n \<Rightarrow> True
      | JStr s \<Rightarrow> True
      | _ \<Rightarrow> False)"

definition assign :: "string \<Rightarrow> jsval \<Rightarrow> (string \<times> jsval) list \<Rightarrow> (string \<times> jsval) list option" where
  "assign k v fs =
     (if k = ''__proto__'' \<and> \<not> own_key k fs
      then (if is_primitive v then Some fs else None)
      else Some (AList.update k v fs))"

section \<open>The regular expressions of the JavaScript runtime\<close>

text \<open>
  \<^verbatim>\<open>new RegExp(src)\<close> and \<^verbatim>\<open>String.prototype.match\<close> belong to the runtime. They are
  modelled for the fragment of the pattern language that route templates reach: literal
  characters, identity escapes (\<^verbatim>\<open>\/\<close>, \<^verbatim>\<open>\.\<close>, \<^verbatim>\<open>\\\<close>), the dot, character
  classes of single characters, capturing groups, alternation, the greedy quantifiers
  \<^verbatim>\<open>*\<close>, \<^verbatim>\<open>+\<close>, \<^verbatim>\<open>?\<close> and the assertions \<^verbatim>\<open>^\<close> and \<^verbatim>\<open>$\<close> (no flags). Any other
  pattern is answered by \<open>None\<close>, which stands for "a syntax error, or outside the model".
\<close>

definition is_word_char :: "char \<Rightarrow> bool" where
  "is_word_char c =
     (let n = (of_char c :: nat) in
        (48 \<le> n \<and> n \<le> 57) \<or> (65 \<le> n \<and> n \<le> 90) \<or> n = 95 \<or> (97 \<le> n \<and> n \<le> 122))"

datatype regex =
    Epsilon
  | Chr char
  | Dot
  | Cls bool "char list"
  | Bol
  | Eol
  | Seq regex regex
  | Alt regex regex
  | Opt regex
  | Star regex
  | Grp nat regex

fun mk_seq :: "regex list \<Rightarrow> regex" where
  "mk_seq [] = Epsilon"
| "mk_seq (t # ts) = Seq t (mk_seq ts)"

fun mk_alt :: "regex list \<Rightarrow> regex" where
  "mk_alt [] = Epsilon"
| "mk_alt [a] = a"
| "mk_alt (a # b # bs) = Alt a (mk_alt (b # bs))"

text \<open>
  The parser reads the pattern once, left to right. A frame is an open group: its number
  (0 for the whole pattern), the alternatives already closed by \<^verbatim>\<open>|\<close> (latest first) and
  the terms of the alternative being read (latest first), each flagged with whether a
  quantifier may follow it. \<^verbatim>\<open>a+\<close> is read as \<^verbatim>\<open>a\<close> followed by \<^verbatim>\<open>a*\<close>.
\<close>

datatype frame = Frame nat "regex list" "(bool \<times> regex) list"

datatype mode = Normal | InClass bool "char list"

definition close_frame :: "regex list \<Rightarrow> (bool \<times> regex) list \<Rightarrow> regex" where
  "close_frame alts cur = mk_alt (rev (mk_seq (rev (map snd cur)) # alts))"

fun parse_loop :: "mode \<Rightarrow> frame list \<Rightarrow> nat \<Rightarrow> string \<Rightarrow> (regex \<times> nat) option" where
  "parse_loop md st n [] =
     (case md of
        InClass neg xs \<Rightarrow> None
      | Normal \<Rightarrow>
          (case st of
             [Frame g alts cur] \<Rightarrow> Some (close_frame alts cur, n)
           | _ \<Rightarrow> None))"
| "parse_loop (InClass neg xs) st n (c # cs) =
     (if c = CHR '']'' then
        (case st of
           [] \<Rightarrow> None
         | Frame g alts cur # st' \<Rightarrow>
             parse_loop Normal (Frame g alts ((True, Cls neg (rev xs)) # cur) # st') n cs)
      else if c = bslash then
        (case cs of
           [] \<Rightarrow> None
         | d # ds \<Rightarrow>
             if is_word_char d then None else parse_loop (InClass neg (d # xs)) st n ds)
      else if c = CHR ''-'' then None
      else parse_loop (InClass neg (c # xs)) st n cs)"
| "parse_loop Normal [] n (c # cs) = None"
| "parse_loop Normal (Frame g alts cur # st) n (c # cs) =
     (if c = bslash then
        (case cs of
           [] \<Rightarrow> None
         | d # ds \<Rightarrow>
             if is_word_char d then None
             else parse_loop Normal (Frame g alts ((True, Chr d) # cur) # st) n ds)
      else if c = CHR ''^'' then parse_loop Normal (Frame g alts ((False, Bol) # cur) # st) n cs
      else if c = CHR ''$'' then parse_loop Normal (Frame g alts ((False, Eol) # cur) # st) n cs
      else if c = CHR ''.'' then parse_loop Normal (Frame g alts ((True, Dot) # cur) # st) n cs
      else if c = CHR ''*'' then
        (case cur of
           (True, a) # cur' \<Rightarrow> parse_loop Normal (Frame g alts ((False, Star a) # cur') # st) n cs
         | _ \<Rightarrow> None)
      else if c = CHR ''+'' then
        (case cur of
           (True, a) # cur' \<Rightarrow>
             parse_loop Normal (Frame g alts ((False, Seq a (Star a)) # cur') # st) n cs
         | _ \<Rightarrow> None)
      else if c = CHR ''?'' then
        (case cur of
           (True, a) # cur' \<Rightarrow> parse_loop Normal (Frame g alts ((False, Opt a) # cur') # st) n cs
         | _ \<Rightarrow> None)
      else if c = CHR ''|'' then
        parse_loop Normal (Frame g (mk_seq (rev (map snd cur)) # alts) [] # st) n cs
      else if c = CHR ''('' then
        (case cs of
           [] \<Rightarrow> None
         | d # ds \<Rightarrow>
             if d = CHR ''?'' then None
             else parse_loop Normal (Frame (Suc n) [] [] # Frame g alts cur # st) (Suc n) cs)
      else if c = CHR '')'' then
        (case st of
           [] \<Rightarrow> None
         | Frame g' alts' cur' # st' \<Rightarrow>
             parse_loop Normal
               (Frame g' alts' ((True, Grp g (close_frame alts cur)) # cur') # st') n cs)
      else if c = CHR ''['' then
        (case cs of
           [] \<Rightarrow> None
         | d # ds \<Rightarrow>
             if d = CHR ''^'' then parse_loop (InClass True []) (Frame g alts cur # st) n ds
             else parse_loop (InClass False []) (Frame g alts cur # st) n cs)
      else if c = CHR '']'' \<or> c = CHR ''{'' \<or> c = CHR ''}'' then None
      else parse_loop Normal (Frame g alts ((True, Chr c) # cur) # st) n cs)"

record regexp =
  ast :: regex
  ngroups :: nat

definition new_RegExp :: "string \<Rightarrow> regexp option" where
  "new_RegExp src =
     (case parse_loop Normal [Frame 0 [] []] 0 src of
        None \<Rightarrow> None
      | Some (r, n) \<Rightarrow> Some \<lparr>ast = r, ngroups = n\<rparr>)"

text \<open>
  Matching is backtracking search. \<open>run n r s c\<close> lists, in the order the runtime tries
  them, every way \<open>r\<close> can match a prefix of the remaining input \<open>s\<close>: the input left
  over and the captures (\<open>n\<close> is the length of the whole input, for \<^verbatim>\<open>^\<close>). As in
  ECMAScript, a repetition clears the captures of its body before each iteration and
  gives up an iteration that consumed nothing.
\<close>

type_synonym caps = "(nat \<times> string) list"

fun groups_of :: "regex \<Rightarrow> nat list" where
  "groups_of (Seq a b) = groups_of a @ groups_of b"
| "groups_of (Alt a b) = groups_of a @ groups_of b"
| "groups_of (Opt a) = groups_of a"
| "groups_of (Star a) = groups_of a"
| "groups_of (Grp k a) = k # groups_of a"
| "groups_of r = []"

definition clear_caps :: "nat list \<Rightarrow> caps \<Rightarrow> caps" where
  "clear_caps ks c = filter (\<lambda>kv. fst kv \<notin> set ks) c"

fun run :: "nat \<Rightarrow> regex \<Rightarrow> string \<Rightarrow> caps \<Rightarrow> (string \<times> caps) list" where
  "run n Epsilon s c = [(s, c)]"
| "run n (Chr x) s c = (case s of [] \<Rightarrow> [] | y # ys \<Rightarrow> if y = x then [(ys, c)] else [])"
| "run n Dot s c =
     (case s of [] \<Rightarrow> [] | y # ys \<Rightarrow> if y = CHR 0x0A \<or> y = CHR 0x0D then [] else [(ys, c)])"
| "run n (Cls neg xs) s c =
     (case s of [] \<Rightarrow> [] | y # ys \<Rightarrow> if (y \<in> set xs) = neg then [] else [(ys, c)])"
| "run n Bol s c = (if length s = n then [(s, c)] else [])"
| "run n Eol s c = (if s = [] then [(s, c)] else [])"
| "run n (Seq a b) s c = concat (map (\<lambda>(s', c'). run n b s' c') (run n a s c))"
| "run n (Alt a b) s c = run n a s c @ run n b s c"
| "run n (Opt a) s c =
     filter (\<lambda>(s', c'). length s' < length s) (run n a s (clear_caps (groups_of a) c)) @ [(s, c)]"
| "run n (Star a) s c =
     concat (map (\<lambda>(s', c'). if length s' < length s then run n (Star a) s' c' else [])
                 (run n a s (clear_caps (groups_of a) c))) @ [(s, c)]"
| "run n (Grp k a) s c =
     map (\<lambda>(s', c'). (s', AList.update k (take (length s - length s') s) c')) (run n a s c)"

text \<open>
  \<^verbatim>\<open>str.match(re)\<close> for a pattern without the \<^verbatim>\<open>g\<close> flag: the first start position, from
  the left, at which the pattern matches. The result is the match array: the matched text,
  then one entry per group, \<^verbatim>\<open>undefined\<close> for a group that took no part.
\<close>

fun first_match :: "regex \<Rightarrow> string \<Rightarrow> nat list \<Rightarrow> (nat \<times> string \<times> caps) option" where
  "first_match r s [] = None"
| "first_match r s (i # is) =
     (case run (length s) r (drop i s) [] of
        [] \<Rightarrow> first_match r s is
      | (s', c) # rest \<Rightarrow> Some (i, s', c))"

definition str_match :: "string \<Rightarrow> regexp \<Rightarrow> jsval list option" where
  "str_match s re =
     (case first_match (ast re) s [0 ..< Suc (length s)] of
        None \<Rightarrow> None
      | Some (i, s', c) \<Rightarrow>
          Some (JStr (take (length s - i - length s') (drop i s)) #
                map (\<lambda>k. case map_of c k of None \<Rightarrow> JUndefined | Some v \<Rightarrow> JStr v)
                    [1 ..< Suc (ngroups re)]))"

section \<open>Types, parameter definitions and the type registry\<close>

text \<open>
  A type object, as the route uses one: \<^verbatim>\<open>parse\<close> and \<^verbatim>\<open>check\<close> (either may throw;
  the result of \<^verbatim>\<open>check\<close> is read for its truthiness) and \<^verbatim>\<open>toString\<close>. The registry
  \<^verbatim>\<open>./types\<close> is not among the sources, so it is a parameter of the model: its
  \<^verbatim>\<open>get\<close>, and the constructor \<^verbatim>\<open>RegExpType\<close> that wraps a caller's pattern.
\<close>

record ty =
  ty_parse :: "jsval \<Rightarrow> js_error + jsval"
  ty_check :: "jsval \<Rightarrow> js_error + bool"
  ty_toString :: string

datatype tspec = TName string | TPattern string | TObject ty

record registry =
  types_get :: "tspec option \<Rightarrow> js_error + ty"
  RegExpType :: "string \<Rightarrow> ty"

text \<open>
  A parameter definition. The field \<^verbatim>\<open>type\<close> holds a type specifier until
  \<^verbatim>\<open>normalizeParams\<close> replaces it by the registry's type object, hence the type variable.
  An absent field is \<open>None\<close>. A caller may also declare a parameter by a bare type name or
  a bare pattern.
\<close>

record 't pdef =
  ptype :: 't
  source :: "string option"
  optional :: "bool option"
  pname :: "string option"
  description :: "string option"

datatype pdecl = ShortName string | ShortPattern string | Decl "tspec option pdef"

definition empty_pdef :: "tspec option pdef" where
  "empty_pdef = \<lparr>ptype = None, source = None, optional = None, pname = None, description = None\<rparr>"

definition falsy :: "string option \<Rightarrow> bool" where
  "falsy x = (x = None \<or> x = Some [])"

definition truthy :: "bool option \<Rightarrow> bool" where
  "truthy x = (x = Some True)"

text \<open>\<^verbatim>\<open>param.type || dflt\<close>: an absent type and the empty type name are falsy.\<close>

definition type_or :: "tspec option \<Rightarrow> string \<Rightarrow> tspec option" where
  "type_or t dflt =
     (case t of
        None \<Rightarrow> Some (TName dflt)
      | Some (TName s) \<Rightarrow> if s = [] then Some (TName dflt) else Some (TName s)
      | Some u \<Rightarrow> Some u)"

section \<open>normalizePath\<close>

text \<open>
  \<^verbatim>\<open>path.replace(/\/:(\w+)/g, callback)\<close> finds, from the left, every \<^verbatim>\<open>/:\<close> followed by
  a longest non-empty run of word characters; \<open>segments\<close> cuts the template into these
  matches and the characters between them.
\<close>

datatype piece = Lit char | Seg string

function segments :: "string \<Rightarrow> piece list" where
  "segments [] = []"
| "segments (c # cs) =
     (if c = CHR ''/'' \<and> (case cs of [] \<Rightarrow> False
                              | d # ds \<Rightarrow> d = CHR '':'' \<and> takeWhile is_word_char ds \<noteq> [])
      then Seg (takeWhile is_word_char (tl cs)) # segments (dropWhile is_word_char (tl cs))
      else Lit c # segments cs)"
  by pat_completeness auto
termination
proof (relation "measure length")
  show "wf (measure length)" by simp
next
  fix c :: char and cs :: string
  have "length (dropWhile is_word_char (tl cs)) \<le> length (tl cs)"
    by (rule length_dropWhile_le)
  then show "(dropWhile is_word_char (tl cs), c # cs) \<in> measure length"
    by simp
next
  fix c :: char and cs :: string
  show "(cs, c # cs) \<in> measure length" by simp
qed

text \<open>The replacement text: the JavaScript string literal \<^verbatim>\<open>"\/([^\\/]+)"\<close>.\<close>

definition capture_rule :: string where
  "capture_rule = ''/([^'' @ [bslash] @ ''/]+)''"

definition shorthand :: "pdecl \<Rightarrow> tspec option pdef" where
  "shorthand d =
     (case d of
        ShortName s \<Rightarrow> empty_pdef\<lparr>ptype := Some (TName s)\<rparr>
      | ShortPattern p \<Rightarrow> empty_pdef\<lparr>ptype := Some (TPattern p)\<rparr>
      | Decl p \<Rightarrow> p)"

text \<open>The error of a URL segment whose parameter names another source.\<close>

definition conflicting_source :: "string \<Rightarrow> js_error" where
  "conflicting_source found =
     Error (''Url parameters must have '' @ [quote] @ ''url'' @ [quote] @
            '' as source but found '' @ [quote] @ found @ [quote])"

text \<open>
  The callback of the first \<^verbatim>\<open>replace\<close>, with the two arrays it writes to passed along:
  it pushes the key, creates or completes the parameter, and throws when the parameter
  has another source than \<^verbatim>\<open>url\<close>. \<^verbatim>\<open>params\<close> is an ordinary object, so
  \<^verbatim>\<open>params[key]\<close> for a key that is not declared finds what the object inherits: a
  built-in function, which then receives the properties \<^verbatim>\<open>type\<close> and \<^verbatim>\<open>source\<close>
  while \<^verbatim>\<open>params\<close> stays as it is; or, for the key \<^verbatim>\<open>__proto__\<close>,
  \<^verbatim>\<open>Object.prototype\<close> itself. Once \<^verbatim>\<open>Object.prototype\<close> has received \<^verbatim>\<open>type\<close> and
  \<^verbatim>\<open>source\<close> (\<open>polluted\<close>: \<^verbatim>\<open>keys\<close> holds \<^verbatim>\<open>__proto__\<close> and \<^verbatim>\<open>params\<close> does not
  declare it), every object inherits the strings \<^verbatim>\<open>"string"\<close> and \<^verbatim>\<open>"url"\<close> under these
  names. A declared or a new parameter comes out the same either way; an undeclared
  key \<^verbatim>\<open>type\<close> or \<^verbatim>\<open>source\<close> then finds a string, and the assignment to a property
  of a string throws a \<^verbatim>\<open>TypeError\<close> in strict mode.
\<close>

definition polluted :: "string list \<Rightarrow> (string \<times> 'v) list \<Rightarrow> bool" where
  "polluted ks ps = (''__proto__'' \<in> set ks \<and> \<not> own_key ''__proto__'' ps)"

definition url_segment ::
  "string \<Rightarrow> string list \<times> (string \<times> tspec option pdef) list \<Rightarrow>
     js_error + (string \<times> string list \<times> (string \<times> tspec option pdef) list)" where
  "url_segment key st =
     (case st of (ks, ps) \<Rightarrow>
        if \<not> own_key key ps \<and> polluted ks ps \<and> (key = ''type'' \<or> key = ''source'')
        then Inl TypeError
        else if \<not> own_key key ps \<and> inherited_key key
        then Inr (capture_rule, ks @ [key], ps)
        else
          (let param = (case map_of ps key of None \<Rightarrow> empty_pdef | Some p \<Rightarrow> p);
               param1 = param\<lparr>ptype := type_or (ptype param) ''string''\<rparr>
           in if falsy (source param1) \<or> source param1 = Some ''url''
              then Inr (capture_rule, ks @ [key],
                        AList.update key (param1\<lparr>source := Some ''url''\<rparr>) ps)
              else Inl (conflicting_source
                          (case source param1 of None \<Rightarrow> [] | Some s \<Rightarrow> s))))"

fun replace_segments ::
  "piece list \<Rightarrow> string list \<times> (string \<times> tspec option pdef) list \<Rightarrow>
     js_error + (string \<times> string list \<times> (string \<times> tspec option pdef) list)" where
  "replace_segments [] st = Inr ([], st)"
| "replace_segments (Lit c # rest) st =
     (case replace_segments rest st of
        Inl e \<Rightarrow> Inl e
      | Inr (out, st') \<Rightarrow> Inr (c # out, st'))"
| "replace_segments (Seg key # rest) st =
     (case url_segment key st of
        Inl e \<Rightarrow> Inl e
      | Inr (rep, st1) \<Rightarrow>
          (case replace_segments rest st1 of
             Inl e \<Rightarrow> Inl e
           | Inr (out, st2) \<Rightarrow> Inr (rep @ out, st2)))"

text \<open>The second \<^verbatim>\<open>replace(/([\/.])/g, '\\$1')\<close>: a backslash before every slash and dot.\<close>

definition escape_path :: "string \<Rightarrow> string" where
  "escape_path s =
     concat (map (\<lambda>c. if c = CHR ''/'' \<or> c = CHR ''.'' then [bslash, c] else [c]) s)"

definition normalizePath ::
  "string \<Rightarrow> string list \<Rightarrow> (string \<times> pdecl) list \<Rightarrow>
     js_error + (regexp \<times> string list \<times> (string \<times> tspec option pdef) list)" where
  "normalizePath path ks decls =
     (case replace_segments (segments path) (ks, map (\<lambda>(k, d). (k, shorthand d)) decls) of
        Inl e \<Rightarrow> Inl e
      | Inr (out, ks', ps') \<Rightarrow>
          (case new_RegExp (''^'' @ escape_path out @ ''$'') of
             None \<Rightarrow> Inl RegExpRejected
           | Some re \<Rightarrow> Inr (re, ks', ps')))"

section \<open>normalizeParams\<close>

definition normalize_param :: "registry \<Rightarrow> tspec option pdef \<Rightarrow> js_error + ty pdef" where
  "normalize_param types param =
     (case (if source param = Some ''query''
            then Inr (param\<lparr>ptype := type_or (ptype param) ''string''\<rparr>)
            else if falsy (source param) \<or> source param = Some ''body''
            then Inr (param\<lparr>ptype := type_or (ptype param) ''json'', source := Some ''body''\<rparr>)
            else if source param \<noteq> Some ''url''
            then Inl (Error (''parameter source muste be '' @ [quote] @ ''url'' @ [quote] @
                             '', '' @ [quote] @ ''query'' @ [quote] @ '' or '' @
                             [quote] @ ''body'' @ [quote]))
            else Inr param) of
        Inl e \<Rightarrow> Inl e
      | Inr p \<Rightarrow>
          (case types_get types
                  (case ptype p of
                     Some (TPattern src) \<Rightarrow> Some (TObject (RegExpType types src))
                   | t \<Rightarrow> t) of
             Inl e \<Rightarrow> Inl e
           | Inr t \<Rightarrow>
               Inr \<lparr>ptype = t, source = source p, optional = Some (truthy (optional p)),
                    pname = pname p, description = description p\<rparr>))"

fun normalizeParams ::
  "registry \<Rightarrow> (string \<times> tspec option pdef) list \<Rightarrow> js_error + (string \<times> ty pdef) list" where
  "normalizeParams types [] = Inr []"
| "normalizeParams types ((nm, param) # rest) =
     (case normalize_param types param of
        Inl e \<Rightarrow> Inl e
      | Inr p \<Rightarrow>
          (case normalizeParams types rest of
             Inl e \<Rightarrow> Inl e
           | Inr ps \<Rightarrow> Inr ((nm, p) # ps)))"

section \<open>The route\<close>

text \<open>
  The state of a route instance that matching and validation read: the closure variables
  \<^verbatim>\<open>keys\<close>, \<^verbatim>\<open>params\<close> and \<^verbatim>\<open>routeRe\<close>, the field \<^verbatim>\<open>lastMatch\<close>, and the field
  \<^verbatim>\<open>name\<close> that \<^verbatim>\<open>decodeParams\<close> reads and the constructor never assigns. The
  constructor's handling of the handler argument, of \<^verbatim>\<open>method\<close> and \<^verbatim>\<open>describe\<close> is
  left out; \<open>types\<close> stands for \<^verbatim>\<open>types || new Types()\<close>. When \<^verbatim>\<open>normalizePath\<close>
  returns with \<^verbatim>\<open>Object.prototype\<close> written to, the model stops.
\<close>

record options =
  opt_params :: "(string \<times> pdecl) list option"
  opt_name :: "string option"
  opt_description :: "string option"

record route =
  lastMatch :: "(string \<times> jsval) list"
  keys :: "string list"
  params :: "(string \<times> ty pdef) list"
  routeRe :: regexp
  self_name :: "string option"

definition Route :: "string \<Rightarrow> options \<Rightarrow> registry \<Rightarrow> js_error + route" where
  "Route template opts types =
     (case normalizePath template []
             (case opt_params opts of None \<Rightarrow> [] | Some ds \<Rightarrow> ds) of
        Inl e \<Rightarrow> Inl e
      | Inr (re, ks, ps) \<Rightarrow>
          if polluted ks ps then Inl Unmodelled
          else
            (case normalizeParams types ps of
               Inl e \<Rightarrow> Inl e
             | Inr ps' \<Rightarrow>
                 Inr \<lparr>lastMatch = [], keys = ks, params = ps', routeRe = re,
                      self_name = None\<rparr>))"

subsection \<open>match\<close>

definition nth_js :: "jsval list \<Rightarrow> nat \<Rightarrow> jsval" where
  "nth_js m i = (if i < length m then m ! i else JUndefined)"

text \<open>
  The loop of \<^verbatim>\<open>match\<close> over \<^verbatim>\<open>keys\<close>, from index \<open>i\<close>, with the \<^verbatim>\<open>lastMatch\<close> built
  so far. A \<^verbatim>\<open>parse\<close> that throws and a \<^verbatim>\<open>check\<close> that fails both reset
  \<^verbatim>\<open>lastMatch\<close> and return \<^verbatim>\<open>false\<close>; a \<^verbatim>\<open>check\<close> that throws is outside the
  \<^verbatim>\<open>try\<close>. For a key that \<^verbatim>\<open>params\<close> only inherits, \<^verbatim>\<open>param.type\<close> is no type
  object and the call of \<^verbatim>\<open>type.parse\<close> throws inside the \<^verbatim>\<open>try\<close>; for a key that
  \<^verbatim>\<open>params\<close> does not have at all, \<^verbatim>\<open>param.type\<close> throws before it.
\<close>

fun match_loop ::
  "(string \<times> ty pdef) list \<Rightarrow> jsval list \<Rightarrow> string list \<Rightarrow> nat \<Rightarrow> (string \<times> jsval) list \<Rightarrow>
     js_error + (bool \<times> (string \<times> jsval) list)" where
  "match_loop ps m [] i lm = Inr (True, lm)"
| "match_loop ps m (key # rest) i lm =
     (case map_of ps key of
        None \<Rightarrow> if inherited_key key then Inr (False, []) else Inl TypeError
      | Some param \<Rightarrow>
          (case ty_parse (ptype param) (nth_js m (i + 1)) of
             Inl e \<Rightarrow> Inr (False, [])
           | Inr v \<Rightarrow>
               (case ty_check (ptype param) v of
                  Inl e \<Rightarrow> Inl e
                | Inr ok \<Rightarrow>
                    if \<not> ok then Inr (False, [])
                    else (case assign key v lm of
                            None \<Rightarrow> Inl Unmodelled
                          | Some lm' \<Rightarrow> match_loop ps m rest (i + 1) lm'))))"

definition match :: "route \<Rightarrow> string \<Rightarrow> js_error + (bool \<times> route)" where
  "match r path =
     (case str_match path (routeRe r) of
        None \<Rightarrow> Inr (False, r)
      | Some m \<Rightarrow>
          (case match_loop (params r) m (keys r) 0 [] of
             Inl e \<Rightarrow> Inl e
           | Inr (b, lm) \<Rightarrow> Inr (b, r\<lparr>lastMatch := lm\<rparr>)))"

subsection \<open>decodeParams\<close>

text \<open>
  The request as the middleware reads it (\<^verbatim>\<open>req.body\<close>, possibly absent, and
  \<^verbatim>\<open>req.parsedUrl.query\<close>) and writes it (\<^verbatim>\<open>req.params\<close>). What the middleware does to
  the response is the list of calls it makes on \<^verbatim>\<open>res\<close>; the argument of \<^verbatim>\<open>res.end\<close>
  is kept as the value handed to \<^verbatim>\<open>JSON.stringify\<close>. The opening guard
  \<^verbatim>\<open>if (!self.lastMatch) return\<close> never fires, \<^verbatim>\<open>lastMatch\<close> being an object from the
  constructor on. An exception is modelled by its value alone: the state left behind by
  a call that throws is not kept.
\<close>

record request =
  req_body :: "jsobject option"
  req_query :: jsobject
  req_params :: "(string \<times> jsval) list option"

datatype res_call =
    WriteHead nat "(string \<times> string) list"
  | EndJSON jsval

record outcome =
  out_req :: request
  res_calls :: "res_call list"
  next_called :: bool

definition resource :: "route \<Rightarrow> jsval" where
  "resource r =
     JStr (case self_name r of None \<Rightarrow> ''root'' | Some s \<Rightarrow> if s = [] then ''root'' else s)"

definition missing_field :: "route \<Rightarrow> string \<Rightarrow> ty pdef \<Rightarrow> jsval" where
  "missing_field r key param =
     JObj [(''resource'', resource r),
           (''field'', JStr key),
           (''source'', case source param of None \<Rightarrow> JUndefined | Some s \<Rightarrow> JStr s),
           (''code'', JStr ''missing_field'')]"

definition invalid :: "route \<Rightarrow> string \<Rightarrow> ty pdef \<Rightarrow> jsval" where
  "invalid r key param =
     JObj [(''resource'', resource r),
           (''field'', JStr key),
           (''type_expected'', JStr (ty_toString (ptype param))),
           (''code'', JStr ''invalid'')]"

definition is_missing ::
  "jsobject \<Rightarrow> jsobject \<Rightarrow> (string \<times> jsval) list \<Rightarrow> string \<Rightarrow> ty pdef \<Rightarrow> bool" where
  "is_missing body query urlParams key param =
     (\<not> truthy (optional param) \<and>
      ((source param = Some ''body'' \<and> \<not> has_key key body) \<or>
       (source param = Some ''query'' \<and> \<not> has_key key query) \<or>
       (source param = Some ''url'' \<and> \<not> has_key key (ordinary urlParams))))"

text \<open>
  The \<^verbatim>\<open>switch\<close> on the source: the value (\<open>None\<close> is the marker \<^verbatim>\<open>EMPTY\<close>) and
  \<^verbatim>\<open>isValid\<close>. Only the \<^verbatim>\<open>parse\<close> of a query value sits in a \<^verbatim>\<open>try\<close>.
\<close>

definition decode_value ::
  "jsobject \<Rightarrow> jsobject \<Rightarrow> (string \<times> jsval) list \<Rightarrow> string \<Rightarrow> ty pdef \<Rightarrow>
     js_error + (jsval option \<times> bool)" where
  "decode_value body query urlParams key param =
     (if source param = Some ''body'' then
        (if truthy (optional param) \<and> \<not> has_key key body then Inr (None, True)
         else (case ty_check (ptype param) (lookup body key) of
                 Inl e \<Rightarrow> Inl e
               | Inr ok \<Rightarrow> Inr (Some (lookup body key), ok)))
      else if source param = Some ''query'' then
        (if truthy (optional param) \<and> \<not> has_key key query then Inr (None, True)
         else (case ty_parse (ptype param) (lookup query key) of
                 Inl e \<Rightarrow> Inr (None, False)
               | Inr v \<Rightarrow>
                   (case ty_check (ptype param) v of
                      Inl e \<Rightarrow> Inl e
                    | Inr ok \<Rightarrow> Inr (Some v, ok))))
      else if source param = Some ''url'' then
        (if truthy (optional param) \<and> \<not> has_key key (ordinary urlParams)
         then Inr (None, True)
         else Inr (Some (lookup (ordinary urlParams) key), True))
      else Inr (None, True))"

text \<open>
  One turn of the loop over \<^verbatim>\<open>params\<close>, on the pair of \<^verbatim>\<open>errors\<close> and the own properties
  of \<^verbatim>\<open>req.params\<close>. \<^verbatim>\<open>urlParams\<close> is \<^verbatim>\<open>lastMatch\<close>, an ordinary object.
\<close>

definition decode_step ::
  "route \<Rightarrow> jsobject \<Rightarrow> jsobject \<Rightarrow> (string \<times> jsval) list \<Rightarrow>
     string \<times> ty pdef \<Rightarrow> jsval list \<times> (string \<times> jsval) list \<Rightarrow>
     js_error + (jsval list \<times> (string \<times> jsval) list)" where
  "decode_step r body query urlParams kp acc =
     (case kp of (key, param) \<Rightarrow>
      (case acc of (errors, rp) \<Rightarrow>
        (if is_missing body query urlParams key param
         then Inr (errors @ [missing_field r key param], rp)
         else (case decode_value body query urlParams key param of
                 Inl e \<Rightarrow> Inl e
               | Inr (v, isValid) \<Rightarrow>
                   if \<not> isValid then Inr (errors @ [invalid r key param], rp)
                   else (case v of
                           None \<Rightarrow> Inr (errors, rp)
                         | Some x \<Rightarrow>
                             (case assign key x rp of
                                None \<Rightarrow> Inl Unmodelled
                              | Some rp' \<Rightarrow> Inr (errors, rp')))))))"

fun decode_loop ::
  "route \<Rightarrow> jsobject \<Rightarrow> jsobject \<Rightarrow> (string \<times> jsval) list \<Rightarrow>
     (string \<times> ty pdef) list \<Rightarrow> jsval list \<times> (string \<times> jsval) list \<Rightarrow>
     js_error + (jsval list \<times> (string \<times> jsval) list)" where
  "decode_loop r body query urlParams [] acc = Inr acc"
| "decode_loop r body query urlParams (kp # rest) acc =
     (case decode_step r body query urlParams kp acc of
        Inl e \<Rightarrow> Inl e
      | Inr acc' \<Rightarrow> decode_loop r body query urlParams rest acc')"

text \<open>\<^verbatim>\<open>req.body || {}\<close>\<close>

definition body_of :: "request \<Rightarrow> jsobject" where
  "body_of req = (case req_body req of None \<Rightarrow> ordinary [] | Some b \<Rightarrow> b)"

definition decodeParams :: "route \<Rightarrow> request \<Rightarrow> js_error + outcome" where
  "decodeParams r req =
     (case decode_loop r (body_of req) (req_query req) (lastMatch r) (params r) ([], []) of
        Inl e \<Rightarrow> Inl e
      | Inr (errors, rp) \<Rightarrow>
          if errors \<noteq> []
          then Inr \<lparr>out_req = req\<lparr>req_params := Some rp\<rparr>,
                    res_calls =
                      [WriteHead 422 [(''Content-Type'', ''application/json'')],
                       EndJSON (JObj [(''message'', JStr ''Validation failed''),
                                      (''errors'', JArr errors)])],
                    next_called = False\<rparr>
          else Inr \<lparr>out_req = req\<lparr>req_params := Some rp\<rparr>, res_calls = [],
                    next_called = True\<rparr>)"

section \<open>The notions the specification speaks of\<close>





text \<open>
  The error list a response carries (the \<^verbatim>\<open>errors\<close> array of the body written by
  \<^verbatim>\<open>res.end\<close>; empty when nothing was written), and the reading of a record: the names
  of its fields in order, and the value of a field.
\<close>

definition errors_sent :: "outcome \<Rightarrow> jsval list" where
  "errors_sent out =
     concat (map (\<lambda>c. case c of
                         EndJSON (JObj [m, (k, JArr es)]) \<Rightarrow> es
                       | _ \<Rightarrow> [])
                 (res_calls out))"

definition fields :: "jsval \<Rightarrow> string list" where
  "fields v = (case v of JObj fs \<Rightarrow> map fst fs | _ \<Rightarrow> [])"

definition get_field :: "jsval \<Rightarrow> string \<Rightarrow> jsval" where
  "get_field v k =
     (case v of
        JObj fs \<Rightarrow> (case map_of fs k of None \<Rightarrow> JUndefined | Some x \<Rightarrow> x)
      | _ \<Rightarrow> JUndefined)"

text \<open>
  The names of the \<^verbatim>\<open>/:name\<close> segments of a template, from left to right.
\<close>

fun names_of :: "piece list \<Rightarrow> string list" where
  "names_of [] = []"
| "names_of (Lit c # rest) = names_of rest"
| "names_of (Seg key # rest) = key # names_of rest"

definition segment_names :: "string \<Rightarrow> string list" where
  "segment_names template = names_of (segments template)"

text \<open>
  What \<^verbatim>\<open>new RegExp\<close> makes of the capture rule once the second \<^verbatim>\<open>replace\<close> has
  escaped its slash again (\<^verbatim>\<open>([^\\/]+)\<close>): group \<open>k\<close> around one or more characters
  that are neither a backslash nor a slash.
\<close>

definition segment_class :: regex where
  "segment_class = Cls True [bslash, CHR ''/'']"

definition segment_rule :: "nat \<Rightarrow> regex" where
  "segment_rule k = Grp k (Seq (Seq segment_class (Star segment_class)) Epsilon)"

text \<open>
  A template is plain when it has none of the characters that the pattern language of
  \<^verbatim>\<open>RegExp\<close> reads as operators and that \<^verbatim>\<open>normalizePath\<close> leaves unescaped.
\<close>

definition special_char :: "char \<Rightarrow> bool" where
  "special_char c = (c \<in> set ''^$*+?()[]{}|'' \<or> c = bslash)"

definition plain_template :: "string \<Rightarrow> bool" where
  "plain_template template = list_all (\<lambda>c. \<not> special_char c) template"

text \<open>
  A path matches a template in full, read from the specification: the characters of the
  template outside its \<^verbatim>\<open>/:name\<close> segments stand for themselves, in order, and each
  \<^verbatim>\<open>/:name\<close> stands for a slash and a non-empty run of characters other than the
  slash. \<open>accepts_with P\<close> is the same reading with \<open>P\<close> for the characters a segment may
  have.
\<close>

fun accepts_with :: "(char \<Rightarrow> bool) \<Rightarrow> piece list \<Rightarrow> string \<Rightarrow> bool" where
  "accepts_with P [] s = (s = [])"
| "accepts_with P (Lit c # rest) s =
     (case s of [] \<Rightarrow> False | y # ys \<Rightarrow> y = c \<and> accepts_with P rest ys)"
| "accepts_with P (Seg key # rest) s =
     (case s of
        [] \<Rightarrow> False
      | y # ys \<Rightarrow>
          y = CHR ''/'' \<and>
          list_ex (\<lambda>j. accepts_with P rest (drop j ys))
                  [1 ..< Suc (length (takeWhile P ys))])"


definition template_accepts :: "piece list \<Rightarrow> string \<Rightarrow> bool" where
  "template_accepts pcs s = accepts_with (\<lambda>c. c \<noteq> CHR ''/'') pcs s"

section \<open>Auxiliary notions of the proofs\<close>

text \<open>
  The characters the compiled class of a segment lets through. For a list of pieces:
  whether its literal characters are plain, the text the first \<^verbatim>\<open>replace\<close> makes of
  it, the terms \<^verbatim>\<open>new RegExp\<close> reads from that text once escaped (groups numbered from
  \<open>n + 1\<close>), and the number of slashes a matching path has.
\<close>

definition seg_char :: "char \<Rightarrow> bool" where
  "seg_char c = (c \<noteq> CHR ''/'' \<and> c \<noteq> bslash)"

fun plain_piece :: "piece \<Rightarrow> bool" where
  "plain_piece (Lit c) = (\<not> special_char c)"
| "plain_piece (Seg key) = True"

fun render :: "piece list \<Rightarrow> string" where
  "render [] = []"
| "render (Lit c # rest) = c # render rest"
| "render (Seg key # rest) = capture_rule @ render rest"


fun terms_of :: "nat \<Rightarrow> piece list \<Rightarrow> regex list" where
  "terms_of n [] = []"
| "terms_of n (Lit c # rest) = Chr c # terms_of n rest"
| "terms_of n (Seg key # rest) = Chr CHR ''/'' # segment_rule (Suc n) # terms_of (Suc n) rest"

fun slashes :: "piece list \<Rightarrow> nat" where
  "slashes [] = 0"
| "slashes (Lit c # rest) = (if c = CHR ''/'' then 1 else 0) + slashes rest"
| "slashes (Seg key # rest) = 1 + slashes rest"

section \<open>A sample type registry\<close>

text \<open>
  Modelled from the spec: the registry \<^verbatim>\<open>./types\<close> and its type objects are not among the
  sources. The sample below follows sections 4.2 and 8 of the specification (a
  \<^verbatim>\<open>string\<close> type that parses to itself, a \<^verbatim>\<open>number\<close> type whose \<^verbatim>\<open>parse\<close> throws
  on anything but decimal digits, a \<^verbatim>\<open>json\<close> type that accepts any defined value) and
  adds a type whose \<^verbatim>\<open>check\<close> throws. It only instantiates the registry parameter at
  concrete inputs; the general theorems hold for every registry.
\<close>

definition is_digit :: "char \<Rightarrow> bool" where
  "is_digit c = (48 \<le> (of_char c :: nat) \<and> (of_char c :: nat) \<le> 57)"

definition decimal :: "string \<Rightarrow> int" where
  "decimal s = foldl (\<lambda>a c. 10 * a + (int (of_char c) - 48)) 0 s"

definition string_type :: ty where
  "string_type =
     \<lparr>ty_parse = (\<lambda>v. Inr v),
      ty_check = (\<lambda>v. Inr (case v of JStr s \<Rightarrow> True | _ \<Rightarrow> False)),
      ty_toString = ''string''\<rparr>"

definition number_type :: ty where
  "number_type =
     \<lparr>ty_parse = (\<lambda>v. case v of
                           JStr s \<Rightarrow> if s \<noteq> [] \<and> list_all is_digit s then Inr (JNum (decimal s))
                                     else Inl (Thrown ''Could not parse string as number'')
                         | _ \<Rightarrow> Inl (Thrown ''Could not parse string as number'')),
      ty_check = (\<lambda>v. Inr (case v of JNum n \<Rightarrow> True | _ \<Rightarrow> False)),
      ty_toString = ''number''\<rparr>"

definition json_type :: ty where
  "json_type =
     \<lparr>ty_parse = (\<lambda>v. Inr v),
      ty_check = (\<lambda>v. Inr (v \<noteq> JUndefined)),
      ty_toString = ''json''\<rparr>"

definition strict_type :: ty where
  "strict_type =
     \<lparr>ty_parse = (\<lambda>v. Inr v),
      ty_check = (\<lambda>v. case v of JStr s \<Rightarrow> Inr True | _ \<Rightarrow> Inl (Thrown ''not a string'')),
      ty_toString = ''strict''\<rparr>"

definition sample_types :: registry where
  "sample_types =
     \<lparr>types_get = (\<lambda>t. case t of
                            Some (TName s) \<Rightarrow>
                              if s = ''string'' then Inr string_type
                              else if s = ''number'' then Inr number_type
                              else if s = ''json'' then Inr json_type
                              else if s = ''strict'' then Inr strict_type
                              else Inl (Thrown ''Unknown type'')
                          | Some (TObject ob) \<Rightarrow> Inr ob
                          | _ \<Rightarrow> Inl (Thrown ''Unknown type'')),
      RegExpType = (\<lambda>src. \<lparr>ty_parse = (\<lambda>v. Inr v),
                             ty_check = (\<lambda>v. case v of
                                                JStr s \<Rightarrow>
                                                  (case new_RegExp src of
                                                     None \<Rightarrow> Inl RegExpRejected
                                                   | Some re \<Rightarrow> Inr (str_match s re \<noteq> None))
                                              | _ \<Rightarrow> Inr False),
                             ty_toString = src\<rparr>)\<rparr>"

definition no_options :: options where
  "no_options = \<lparr>opt_params = None, opt_name = None, opt_description = None\<rparr>"

text \<open>
  A route with a required body parameter, a required query parameter and an optional
  body parameter whose type throws from \<^verbatim>\<open>check\<close>, as the constructor builds it from
  \<open>signup_options\<close>; and two requests to it.
\<close>

definition signup_options :: options where
  "signup_options =
     \<lparr>opt_params =
        Some [(''name'', Decl (empty_pdef\<lparr>ptype := Some (TName ''string''),
                                           source := Some ''body''\<rparr>)),
              (''age'', Decl (empty_pdef\<lparr>ptype := Some (TName ''number''),
                                          source := Some ''query''\<rparr>)),
              (''token'', Decl (empty_pdef\<lparr>ptype := Some (TName ''strict''),
                                            optional := Some True\<rparr>))],
      opt_name = None, opt_description = None\<rparr>"

definition name_param :: "ty pdef" where
  "name_param = \<lparr>ptype = string_type, source = Some ''body'', optional = Some False,
                  pname = None, description = None\<rparr>"

definition age_param :: "ty pdef" where
  "age_param = \<lparr>ptype = number_type, source = Some ''query'', optional = Some False,
                 pname = None, description = None\<rparr>"

definition token_param :: "ty pdef" where
  "token_param = \<lparr>ptype = strict_type, source = Some ''body'', optional = Some True,
                   pname = None, description = None\<rparr>"

definition signup_route :: route where
  "signup_route =
     \<lparr>lastMatch = [], keys = [],
      params = [(''name'', name_param), (''age'', age_param), (''token'', token_param)],
      routeRe = \<lparr>ast = Seq Bol (Seq (Chr CHR ''/'') (Seq (Chr CHR ''u'') (Seq Eol Epsilon))),
                 ngroups = 0\<rparr>,
      self_name = None\<rparr>"

definition bad_request :: request where
  "bad_request =
     \<lparr>req_body = None, req_query = ordinary [(''age'', JStr ''abc'')], req_params = None\<rparr>"

definition bad_errors :: "jsval list" where
  "bad_errors =
     [JObj [(''resource'', JStr ''root''), (''field'', JStr ''name''),
            (''source'', JStr ''body''), (''code'', JStr ''missing_field'')],
      JObj [(''resource'', JStr ''root''), (''field'', JStr ''age''),
            (''type_expected'', JStr ''number''), (''code'', JStr ''invalid'')]]"

definition bad_outcome :: outcome where
  "bad_outcome =
     \<lparr>out_req = bad_request\<lparr>req_params := Some []\<rparr>,
      res_calls = [WriteHead 422 [(''Content-Type'', ''application/json'')],
                   EndJSON (JObj [(''message'', JStr ''Validation failed''),
                                  (''errors'', JArr bad_errors)])],
      next_called = False\<rparr>"

definition throwing_request :: request where
  "throwing_request =
     \<lparr>req_body = Some (ordinary [(''name'', JStr ''Ann''), (''token'', JNum 5)]),
      req_query = ordinary [(''age'', JStr ''abc'')], req_params = None\<rparr>"





text \<open>
  The answer of \<^verbatim>\<open>match\<close> on a route freshly built from a template alone, and the route
  of the template \<^verbatim>\<open>/users/:id\<close>.
\<close>

definition route_matches :: "string \<Rightarrow> string \<Rightarrow> js_error + bool" where
  "route_matches template path =
     (case Route template no_options sample_types of
        Inl e \<Rightarrow> Inl e
      | Inr r \<Rightarrow> map_sum id fst (match r path))"

definition users_route :: route where
  "users_route =
     \<lparr>lastMatch = [], keys = [''id''],
      params = [(''id'', \<lparr>ptype = string_type, source = Some ''url'', optional = Some False,
                          pname = None, description = None\<rparr>)],
      routeRe =
        \<lparr>ast = Seq Bol (Seq (Chr CHR ''/'') (Seq (Chr CHR ''u'') (Seq (Chr CHR ''s'')
                 (Seq (Chr CHR ''e'') (Seq (Chr CHR ''r'') (Seq (Chr CHR ''s'')
                 (Seq (Chr CHR ''/'') (Seq (segment_rule 1) (Seq Eol Epsilon))))))))),
         ngroups = 1\<rparr>,
      self_name = None\<rparr>"

text \<open>
  A route with a required body parameter, a required query parameter and an optional
  body parameter named \<^verbatim>\<open>toString\<close>, and a request to it whose body holds the first,
  whose query holds an unparseable second, and whose body inherits the third.
\<close>

definition profile_options :: options where
  "profile_options =
     \<lparr>opt_params =
        Some [(''name'', Decl (empty_pdef\<lparr>ptype := Some (TName ''string''),
                                           source := Some ''body''\<rparr>)),
              (''age'', Decl (empty_pdef\<lparr>ptype := Some (TName ''number''),
                                          source := Some ''query''\<rparr>)),
              (''toString'', Decl (empty_pdef\<lparr>ptype := Some (TName ''string''),
                                               optional := Some True\<rparr>))],
      opt_name = None, opt_description = None\<rparr>"

definition toString_param :: "ty pdef" where
  "toString_param = \<lparr>ptype = string_type, source = Some ''body'', optional = Some True,
                      pname = None, description = None\<rparr>"

definition profile_route :: route where
  "profile_route =
     \<lparr>lastMatch = [], keys = [],
      params = [(''name'', name_param), (''age'', age_param), (''toString'', toString_param)],
      routeRe = \<lparr>ast = Seq Bol (Seq (Chr CHR ''/'') (Seq (Chr CHR ''p'') (Seq Eol Epsilon))),
                 ngroups = 0\<rparr>,
      self_name = None\<rparr>"

definition mixed_request :: request where
  "mixed_request =
     \<lparr>req_body = Some (ordinary [(''name'', JStr ''Ann'')]),
      req_query = ordinary [(''age'', JStr ''abc'')], req_params = None\<rparr>"

definition mixed_errors :: "jsval list" where
  "mixed_errors =
     [JObj [(''resource'', JStr ''root''), (''field'', JStr ''age''),
            (''type_expected'', JStr ''number''), (''code'', JStr ''invalid'')],
      JObj [(''resource'', JStr ''root''), (''field'', JStr ''toString''),
            (''type_expected'', JStr ''string''), (''code'', JStr ''invalid'')]]"

definition mixed_outcome :: outcome where
  "mixed_outcome =
     \<lparr>out_req = mixed_request\<lparr>req_params := Some [(''name'', JStr ''Ann'')]\<rparr>,
      res_calls = [WriteHead 422 [(''Content-Type'', ''application/json'')],
                   EndJSON (JObj [(''message'', JStr ''Validation failed''),
                                  (''errors'', JArr mixed_errors)])],
      next_called = False\<rparr>"

section \<open>Evaluation at concrete inputs\<close>

text \<open>
  The equation of \<open>run\<close> for a repetition calls itself; it is unfolded on demand only.
\<close>

declare run.simps(10) [simp del]

lemmas route_eval_defs =
  Route_def normalizePath_def no_options_def sample_types_def string_type_def
  shorthand_def url_segment_def capture_rule_def escape_path_def new_RegExp_def
  is_word_char_def close_frame_def normalize_param_def type_or_def falsy_def truthy_def
  empty_pdef_def own_key_def inherited_key_def polluted_def Object_prototype_def

lemmas match_eval_defs =
  match_def str_match_def nth_js_def clear_caps_def segment_rule_def segment_class_def
  run.simps(10) assign_def is_primitive_def own_key_def inherited_key_def
  Object_prototype_def

lemma users_route_constructed: "Route ''/users/:id'' no_options sample_types = Inr users_route"
  by (simp add: route_eval_defs users_route_def segment_rule_def segment_class_def)

lemma users_normalizePath:
  "normalizePath ''/users/:id'' [] [] =
     Inr (routeRe users_route, [''id''],
          [(''id'', empty_pdef\<lparr>ptype := Some (TName ''string''), source := Some ''url''\<rparr>)])"
  by (simp add: route_eval_defs users_route_def segment_rule_def segment_class_def)

lemma users_route_match_42:
  "match users_route ''/users/42'' = Inr (True, users_route\<lparr>lastMatch := [(''id'', JStr ''42'')]\<rparr>)"
  by (simp add: users_route_def match_eval_defs string_type_def)

lemma match_pattern_fails:
  "str_match path (routeRe r) = None \<Longrightarrow> match r path = Inr (False, r)"
  by (simp add: match_def)

section \<open>Facts about the validation loop\<close>

lemmas fixture_defs =
  signup_route_def name_param_def age_param_def token_param_def bad_request_def
  throwing_request_def bad_errors_def bad_outcome_def string_type_def number_type_def
  strict_type_def is_digit_def profile_route_def toString_param_def mixed_request_def
  mixed_errors_def mixed_outcome_def


lemmas decode_defs =
  body_of_def decode_step_def is_missing_def decode_value_def has_key_def truthy_def
  lookup_def missing_field_def invalid_def resource_def ordinary_def own_key_def
  Object_prototype_def assign_def is_primitive_def

lemma signup_route_constructed: "Route ''/u'' signup_options sample_types = Inr signup_route"
  by (simp add: route_eval_defs signup_options_def fixture_defs)

lemma bad_request_loop:
  "decode_loop signup_route (body_of bad_request) (req_query bad_request)
     (lastMatch signup_route) (params signup_route) ([], []) = Inr (bad_errors, [])"
  by (simp add: fixture_defs decode_defs)

lemma bad_request_outcome: "decodeParams signup_route bad_request = Inr bad_outcome"
  by (simp add: decodeParams_def bad_request_loop) (simp add: bad_errors_def bad_outcome_def)

lemma profile_route_constructed: "Route ''/p'' profile_options sample_types = Inr profile_route"
  by (simp add: route_eval_defs profile_options_def fixture_defs)








lemma decodeParams_cases:
  assumes "decodeParams r req = Inr out"
  obtains errors rp where
    "decode_loop r (body_of req) (req_query req) (lastMatch r) (params r) ([], [])
       = Inr (errors, rp)"
    "errors_sent out = errors"
  using assms
  by (auto simp: decodeParams_def errors_sent_def split: sum.splits if_splits)



lemma decode_step_shape:
  assumes "decode_step r body query urlParams (key, param) (errs0, rp0) = Inr (errs, rp)"
  shows "errs = errs0 \<or> errs = errs0 @ [missing_field r key param] \<or>
         errs = errs0 @ [invalid r key param]"
  using assms
  by (auto simp: decode_step_def split: if_splits sum.splits option.splits)

lemma decode_loop_shape:
  "decode_loop r body query urlParams ps (errs0, rp0) = Inr (errs, rp) \<Longrightarrow>
   v \<in> set errs \<Longrightarrow> v \<notin> set errs0 \<Longrightarrow>
   \<exists>key param. (key, param) \<in> set ps \<and>
     (v = missing_field r key param \<or> v = invalid r key param)"
proof (induction ps arbitrary: errs0 rp0)
  case Nil
  then show ?case by simp
next
  case (Cons kp ps)
  obtain key param where kp: "kp = (key, param)" by (cases kp)
  from Cons.prems(1) obtain errs1 rp1 where
    step: "decode_step r body query urlParams (key, param) (errs0, rp0) = Inr (errs1, rp1)" and
    rest: "decode_loop r body query urlParams ps (errs1, rp1) = Inr (errs, rp)"
    by (auto simp: kp split: sum.splits)
  show ?case
  proof (cases "v \<in> set errs1")
    case True
    with decode_step_shape [OF step] Cons.prems(3)
    have "v = missing_field r key param \<or> v = invalid r key param" by auto
    then show ?thesis by (auto simp: kp)
  next
    case False
    from Cons.IH [OF rest Cons.prems(2) False] show ?thesis by auto
  qed
qed

lemma missing_field_shape:
  "fields (missing_field r key param) = [''resource'', ''field'', ''source'', ''code''] \<and>
   get_field (missing_field r key param) ''resource'' = resource r \<and>
   get_field (missing_field r key param) ''field'' = JStr key \<and>
   get_field (missing_field r key param) ''code'' = JStr ''missing_field''"
  by (simp add: fields_def get_field_def missing_field_def lookup_def)

lemma invalid_shape:
  "fields (invalid r key param) = [''resource'', ''field'', ''type_expected'', ''code''] \<and>
   get_field (invalid r key param) ''resource'' = resource r \<and>
   get_field (invalid r key param) ''field'' = JStr key \<and>
   get_field (invalid r key param) ''code'' = JStr ''invalid'' \<and>
   get_field (invalid r key param) ''type_expected'' = JStr (ty_toString (ptype param))"
  by (simp add: fields_def get_field_def invalid_def lookup_def)

section \<open>Facts about the callback of normalizePath\<close>


lemma url_segment_Inr:
  assumes "url_segment k (ks, ps) = Inr (rep, ks', ps')"
  shows "rep = capture_rule \<and> ks' = ks @ [k]"
  using assms by (auto simp: url_segment_def Let_def split: if_splits)






lemma replace_segments_result:
  "replace_segments pcs (ks, ps) = Inr (out, ks', ps') \<Longrightarrow>
   out = render pcs \<and> ks' = ks @ names_of pcs"
proof (induction pcs arbitrary: ks ps out rule: names_of.induct)
  case 1
  then show ?case by simp
next
  case (2 c rest)
  then show ?case by (auto split: sum.splits)
next
  case (3 key rest)
  from "3.prems" obtain rep ks1 ps1 out1 where
    seg: "url_segment key (ks, ps) = Inr (rep, ks1, ps1)" and
    rest: "replace_segments rest (ks1, ps1) = Inr (out1, ks', ps')" and
    out: "out = rep @ out1"
    by (auto split: sum.splits)
  from url_segment_Inr [OF seg] have "rep = capture_rule" and "ks1 = ks @ [key]"
    by simp_all
  with "3.IH" [OF rest] out show ?case by simp
qed


section \<open>What new RegExp reads from a plain template\<close>

lemma escape_path_append: "escape_path (a @ b) = escape_path a @ escape_path b"
  by (simp add: escape_path_def)

lemma escape_path_Cons: "escape_path (c # s) = escape_path [c] @ escape_path s"
  by (simp add: escape_path_def)

lemma parse_lit:
  assumes "\<not> special_char c"
  shows "parse_loop Normal (Frame g alts cur # st) n (escape_path [c] @ rest) =
         parse_loop Normal (Frame g alts ((True, Chr c) # cur) # st) n rest"
  using assms by (simp add: escape_path_def special_char_def is_word_char_def)

lemma parse_seg:
  "parse_loop Normal (Frame g alts cur # st) n (escape_path capture_rule @ rest) =
   parse_loop Normal
     (Frame g alts ((True, segment_rule (Suc n)) # (True, Chr CHR ''/'') # cur) # st) (Suc n) rest"
  by (simp add: escape_path_def capture_rule_def is_word_char_def segment_rule_def
      segment_class_def close_frame_def)

lemma parse_pieces:
  "list_all plain_piece pcs \<Longrightarrow>
   parse_loop Normal (Frame g alts cur # st) n (escape_path (render pcs) @ rest) =
   parse_loop Normal (Frame g alts (rev (map (Pair True) (terms_of n pcs)) @ cur) # st)
     (n + length (names_of pcs)) rest"
proof (induction pcs arbitrary: cur n rule: names_of.induct)
  case 1
  then show ?case by (simp add: escape_path_def)
next
  case (2 c pcs)
  from "2.prems" have c: "\<not> special_char c" and rest: "list_all plain_piece pcs" by simp_all
  have "escape_path (render (Lit c # pcs)) @ rest
        = escape_path [c] @ (escape_path (render pcs) @ rest)"
    by (simp add: escape_path_Cons [of c "render pcs"])
  then show ?case by (simp only: parse_lit [OF c] "2.IH" [OF rest]) simp
next
  case (3 key pcs)
  from "3.prems" have rest: "list_all plain_piece pcs" by simp
  have "escape_path (render (Seg key # pcs)) @ rest
        = escape_path capture_rule @ (escape_path (render pcs) @ rest)"
    by (simp add: escape_path_append)
  then show ?case by (simp only: parse_seg "3.IH" [OF rest]) simp
qed

lemma new_RegExp_plain:
  assumes "list_all plain_piece pcs"
  shows "new_RegExp (''^'' @ escape_path (render pcs) @ ''$'') =
         Some \<lparr>ast = mk_seq (Bol # terms_of 0 pcs @ [Eol]), ngroups = length (names_of pcs)\<rparr>"
proof -
  have "parse_loop Normal [Frame 0 [] []] 0 (''^'' @ escape_path (render pcs) @ ''$'')
        = parse_loop Normal [Frame 0 [] [(False, Bol)]] 0 (escape_path (render pcs) @ ''$'')"
    by simp
  also have "\<dots> = parse_loop Normal
       [Frame 0 [] (rev (map (Pair True) (terms_of 0 pcs)) @ [(False, Bol)])]
       (0 + length (names_of pcs)) ''$''"
    by (rule parse_pieces [OF assms])
  also have "\<dots> = Some (mk_seq (Bol # terms_of 0 pcs @ [Eol]), length (names_of pcs))"
    by (simp add: close_frame_def rev_map comp_def)
  finally show ?thesis by (simp add: new_RegExp_def)
qed

lemma segments_plain: "plain_template template \<Longrightarrow> list_all plain_piece (segments template)"
proof (induction template rule: segments.induct)
  case 1
  then show ?case by simp
next
  case (2 c cs)
  show ?case
  proof (cases "c = CHR ''/'' \<and> (case cs of [] \<Rightarrow> False
                              | d # ds \<Rightarrow> d = CHR '':'' \<and> takeWhile is_word_char ds \<noteq> [])")
    case True
    have "set (dropWhile is_word_char (tl cs)) \<subseteq> set (c # cs)"
      using set_dropWhileD [of _ is_word_char "tl cs"] list.set_sel(2) [of cs]
      by (cases cs) auto
    with "2.prems" have "plain_template (dropWhile is_word_char (tl cs))"
      by (auto simp: plain_template_def list_all_iff)
    with "2.IH"(1) [OF True] show ?thesis
      by (simp only: segments.simps if_P [OF True]) simp
  next
    case False
    from "2.prems" have "plain_template cs" and "\<not> special_char c"
      by (simp_all add: plain_template_def)
    with "2.IH"(2) [OF False] show ?thesis
      by (simp only: segments.simps if_not_P [OF False]) simp
  qed
qed

section \<open>What the compiled pattern of a plain template matches\<close>

lemma run_class:
  "run n segment_class s c =
     (case s of [] \<Rightarrow> [] | y # ys \<Rightarrow> if seg_char y then [(ys, c)] else [])"
  by (auto simp: segment_class_def seg_char_def split: list.splits)

lemma upt_Suc_shift: "[0 ..< Suc (Suc m)] = 0 # map Suc [0 ..< Suc m]"
  by (simp only: map_Suc_upt upt_conv_Cons [of 0 "Suc (Suc m)"])

lemma run_star_class:
  "run n (Star segment_class) s c =
     map (\<lambda>j. (drop j s, c)) (rev [0 ..< Suc (length (takeWhile seg_char s))])"
proof (induction s)
  case Nil
  show ?case
    by (subst run.simps(10)) (simp add: run_class clear_caps_def segment_class_def)
next
  case (Cons y ys)
  have cl: "clear_caps (groups_of segment_class) c = c"
    by (simp add: clear_caps_def segment_class_def)
  show ?case
  proof (cases "seg_char y")
    case True
    have "run n (Star segment_class) (y # ys) c =
          run n (Star segment_class) ys c @ [(y # ys, c)]"
      by (subst run.simps(10)) (simp add: cl run_class True)
    also have "\<dots> = map (\<lambda>j. (drop j ys, c)) (rev [0 ..< Suc (length (takeWhile seg_char ys))])
                     @ [(y # ys, c)]"
      by (simp only: Cons.IH)
    also have "\<dots> = map (\<lambda>j. (drop j (y # ys), c))
                      (rev [0 ..< Suc (Suc (length (takeWhile seg_char ys)))])"
      by (simp only: upt_Suc_shift) (simp add: rev_map comp_def)
    finally show ?thesis using True by simp
  next
    case False
    have "run n (Star segment_class) (y # ys) c = [(y # ys, c)]"
      by (subst run.simps(10)) (simp add: cl run_class False)
    then show ?thesis using False by simp
  qed
qed

lemma set_run_segment_rule:
  "set (run n (segment_rule k) s c) =
     (\<lambda>j. (drop j s, AList.update k (take j s) c)) ` {1 .. length (takeWhile seg_char s)}"
proof (cases s)
  case Nil
  then show ?thesis by (simp add: segment_rule_def run_class)
next
  case (Cons y ys)
  show ?thesis
  proof (cases "seg_char y")
    case False
    with Cons show ?thesis by (simp add: segment_rule_def run_class)
  next
    case True
    let ?m = "length (takeWhile seg_char ys)"
    have body: "run n (Seq (Seq segment_class (Star segment_class)) Epsilon) s c =
          map (\<lambda>j. (drop j ys, c)) (rev [0 ..< Suc ?m])"
      using Cons True by (simp add: run_class run_star_class comp_def)
    have "run n (segment_rule k) s c =
          map (\<lambda>(s', c'). (s', AList.update k (take (length s - length s') s) c'))
              (map (\<lambda>j. (drop j ys, c)) (rev [0 ..< Suc ?m]))"
      by (simp only: segment_rule_def run.simps(11) body)
    also have "\<dots> = map (\<lambda>j. (drop (Suc j) s, AList.update k (take (Suc j) s) c))
                          (rev [0 ..< Suc ?m])"
    proof -
      have "length s - length (drop j ys) = Suc j" if "j \<le> ?m" for j
        using that length_takeWhile_le [of seg_char ys] Cons by simp
      then show ?thesis using Cons by (simp add: comp_def)
    qed
    finally have "set (run n (segment_rule k) s c) =
          (\<lambda>j. (drop (Suc j) s, AList.update k (take (Suc j) s) c)) ` {0 .. ?m}"
      by (simp add: atLeastLessThanSuc_atLeastAtMost del: upt_Suc)
    also have "\<dots> = (\<lambda>j. (drop j s, AList.update k (take j s) c)) ` {Suc 0 .. Suc ?m}"
      by (simp only: image_Suc_atLeastAtMost [symmetric] image_image)
    finally show ?thesis using Cons True by simp
  qed
qed

lemma concat_map_nonempty: "concat (map f xs) \<noteq> [] \<longleftrightarrow> (\<exists>x \<in> set xs. f x \<noteq> [])"
  by (induction xs) auto

lemma run_terms_accepts:
  "run n (mk_seq (terms_of k pcs @ [Eol])) s c \<noteq> [] \<longleftrightarrow> accepts_with seg_char pcs s"
proof (induction pcs arbitrary: k s c rule: names_of.induct)
  case 1
  then show ?case by simp
next
  case (2 x rest)
  then show ?case by (cases s) simp_all
next
  case (3 key rest)
  show ?case
  proof (cases s)
    case Nil
    then show ?thesis by simp
  next
    case (Cons y ys)
    let ?R = "mk_seq (terms_of (Suc k) rest @ [Eol])"
    let ?m = "length (takeWhile seg_char ys)"
    show ?thesis
    proof (cases "y = CHR ''/''")
      case False
      with Cons show ?thesis by simp
    next
      case True
      have "run n (mk_seq (terms_of k (Seg key # rest) @ [Eol])) s c =
            concat (map (\<lambda>(s', c'). run n ?R s' c') (run n (segment_rule (Suc k)) ys c))"
        using Cons True by simp
      then have "run n (mk_seq (terms_of k (Seg key # rest) @ [Eol])) s c \<noteq> [] \<longleftrightarrow>
            (\<exists>x \<in> set (run n (segment_rule (Suc k)) ys c). (case x of (s', c') \<Rightarrow> run n ?R s' c') \<noteq> [])"
        by (simp only: concat_map_nonempty)
      also have "\<dots> \<longleftrightarrow> (\<exists>j \<in> {1 .. ?m}. run n ?R (drop j ys) (AList.update (Suc k) (take j ys) c) \<noteq> [])"
        by (simp add: set_run_segment_rule)
      also have "\<dots> \<longleftrightarrow> (\<exists>j \<in> {1 .. ?m}. accepts_with seg_char rest (drop j ys))"
        by (simp only: "3.IH")
      also have "\<dots> \<longleftrightarrow> accepts_with seg_char (Seg key # rest) s"
        using Cons True by (auto simp: list_ex_iff)
      finally show ?thesis .
    qed
  qed
qed

lemma first_match_Bol_later:
  "(\<forall>i \<in> set js. 0 < i \<and> i \<le> length s) \<Longrightarrow> first_match (Seq Bol R) s js = None"
  by (induction js) auto

lemma str_match_anchored:
  "str_match s \<lparr>ast = mk_seq (Bol # ts @ [Eol]), ngroups = g\<rparr> \<noteq> None \<longleftrightarrow>
   run (length s) (mk_seq (ts @ [Eol])) s [] \<noteq> []"
proof -
  have later: "first_match (Seq Bol (mk_seq (ts @ [Eol]))) s [Suc 0 ..< Suc (length s)] = None"
    by (rule first_match_Bol_later) auto
  have "[0 ..< Suc (length s)] = 0 # [Suc 0 ..< Suc (length s)]"
    by (rule upt_conv_Cons) simp
  then show ?thesis
    by (simp del: upt_Suc add: str_match_def later split: list.splits)
qed

lemma accepts_with_Seg:
  "accepts_with P (Seg key # rest) s \<longleftrightarrow>
   (\<exists>v s'. s = CHR ''/'' # v @ s' \<and> v \<noteq> [] \<and> list_all P v \<and> accepts_with P rest s')"
proof
  assume "accepts_with P (Seg key # rest) s"
  then obtain ys j where s: "s = CHR ''/'' # ys" and j: "1 \<le> j" "j \<le> length (takeWhile P ys)"
    and acc: "accepts_with P rest (drop j ys)"
    by (cases s) (auto simp: list_ex_iff)
  have "take j ys = take j (takeWhile P ys)"
    using j(2) by (metis takeWhile_dropWhile_id take_append take_all_iff append_Nil2 diff_is_0_eq take_0)
  then have "list_all P (take j ys)"
    by (metis list_all_iff set_takeWhileD in_set_takeD)
  moreover have "take j ys \<noteq> []" using j length_takeWhile_le [of P ys]
    by (cases ys) auto
  moreover have "s = CHR ''/'' # take j ys @ drop j ys" using s by simp
  ultimately show "\<exists>v s'. s = CHR ''/'' # v @ s' \<and> v \<noteq> [] \<and> list_all P v \<and> accepts_with P rest s'"
    using acc by blast
next
  assume "\<exists>v s'. s = CHR ''/'' # v @ s' \<and> v \<noteq> [] \<and> list_all P v \<and> accepts_with P rest s'"
  then obtain v s' where s: "s = CHR ''/'' # v @ s'" and v: "v \<noteq> []" "list_all P v"
    and acc: "accepts_with P rest s'"
    by blast
  from v(2) have "takeWhile P (v @ s') = v @ takeWhile P s'"
    by (simp add: takeWhile_append2 list_all_iff)
  then have "length v \<le> length (takeWhile P (v @ s'))" by simp
  moreover have "1 \<le> length v" using v(1) by (cases v) auto
  ultimately show "accepts_with P (Seg key # rest) s"
    using s acc by (auto simp: list_ex_iff intro!: bexI [of _ "length v"])
qed

lemma accepts_with_mono:
  assumes "\<And>c. P c \<Longrightarrow> Q c"
  shows "accepts_with P pcs s \<Longrightarrow> accepts_with Q pcs s"
proof (induction pcs arbitrary: s rule: names_of.induct)
  case 1
  then show ?case by simp
next
  case (2 c rest)
  then show ?case by (cases s) auto
next
  case (3 key rest)
  from "3.prems" obtain v s' where "s = CHR ''/'' # v @ s'" "v \<noteq> []" "list_all P v"
    and acc: "accepts_with P rest s'"
    by (auto simp only: accepts_with_Seg)
  moreover from \<open>list_all P v\<close> assms have "list_all Q v" by (auto simp: list_all_iff)
  moreover note "3.IH" [OF acc]
  ultimately show ?case by (auto simp only: accepts_with_Seg)
qed

lemma accepts_with_slashes:
  assumes "\<And>c. P c \<Longrightarrow> c \<noteq> CHR ''/''"
  shows "accepts_with P pcs s \<Longrightarrow> count_list s CHR ''/'' = slashes pcs"
proof (induction pcs arbitrary: s rule: names_of.induct)
  case 1
  then show ?case by simp
next
  case (2 c rest)
  then show ?case by (cases s) auto
next
  case (3 key rest)
  from "3.prems" obtain v s' where s: "s = CHR ''/'' # v @ s'" and v: "list_all P v"
    and acc: "accepts_with P rest s'"
    by (auto simp only: accepts_with_Seg)
  from v assms have "count_list v CHR ''/'' = 0"
    by (auto simp: count_list_0_iff list_all_iff)
  with "3.IH" [OF acc] s show ?case by simp
qed

section \<open>normalizePath on a plain template\<close>

lemma normalizePath_plain:
  assumes "plain_template template"
    and "normalizePath template ks0 decls = Inr (re, ks, ps)"
  shows "re = \<lparr>ast = mk_seq (Bol # terms_of 0 (segments template) @ [Eol]),
               ngroups = length (segment_names template)\<rparr> \<and>
         ks = ks0 @ segment_names template"
proof -
  from assms(2) obtain out where
    rs: "replace_segments (segments template) (ks0, map (\<lambda>(k, d). (k, shorthand d)) decls)
           = Inr (out, ks, ps)" and
    re: "new_RegExp (''^'' @ escape_path out @ ''$'') = Some re"
    by (auto simp: normalizePath_def split: sum.splits option.splits)
  from replace_segments_result [OF rs] have out: "out = render (segments template)"
    and ks: "ks = ks0 @ names_of (segments template)" by simp_all
  from new_RegExp_plain [OF segments_plain [OF assms(1)]] re out
  have "re = \<lparr>ast = mk_seq (Bol # terms_of 0 (segments template) @ [Eol]),
               ngroups = length (names_of (segments template))\<rparr>"
    by simp
  with ks show ?thesis by (simp add: segment_names_def)
qed

lemma plain_match_iff:
  assumes "plain_template template"
    and "normalizePath template ks0 decls = Inr (re, ks, ps)"
  shows "str_match path re \<noteq> None \<longleftrightarrow> accepts_with seg_char (segments template) path"
proof -
  from normalizePath_plain [OF assms]
  have re: "re = \<lparr>ast = mk_seq (Bol # terms_of 0 (segments template) @ [Eol]),
               ngroups = length (segment_names template)\<rparr>" by simp
  show ?thesis
    by (simp only: re str_match_anchored run_terms_accepts)
qed

lemma capture_rule_compiled:
  "new_RegExp (escape_path capture_rule) =
     Some \<lparr>ast = Seq (Chr CHR ''/'') (Seq (segment_rule 1) Epsilon), ngroups = 1\<rparr>"
  by (simp add: new_RegExp_def escape_path_def capture_rule_def is_word_char_def
      close_frame_def segment_rule_def segment_class_def)

section \<open>Counting the groups of a compiled template\<close>




















section \<open>The captures of a match\<close>










section \<open>Matching leaves the match state behind (C1)\<close>

lemma match_loop_false:
  "match_loop ps m ks i lm = Inr (False, lm') \<Longrightarrow> lm' = []"
  by (induction ks arbitrary: i lm) (auto split: option.splits sum.splits if_splits)

lemma match_pattern_matches_false:
  assumes "str_match path (routeRe r) = Some m" and "match r path = Inr (False, r')"
  shows "lastMatch r' = []"
  using assms match_loop_false
  by (fastforce simp: match_def split: sum.splits prod.splits)

text \<open>
  C1. The claim: whenever \<^verbatim>\<open>match(path)\<close> returns \<^verbatim>\<open>false\<close>, also because the pattern
  does not match the path, \<^verbatim>\<open>lastMatch\<close> is empty afterwards. The code returns before it
  resets \<^verbatim>\<open>lastMatch\<close> when the pattern does not match: on the route of template
  \<^verbatim>\<open>/users/:id\<close>, after \<^verbatim>\<open>match("/users/42")\<close> has returned \<^verbatim>\<open>true\<close>, the call
  \<^verbatim>\<open>match("/other")\<close> returns \<^verbatim>\<open>false\<close> and \<^verbatim>\<open>lastMatch\<close> still binds \<^verbatim>\<open>id\<close> to
  \<^verbatim>\<open>"42"\<close>.
\<close>

theorem match_failure_keeps_stale_lastMatch:
  "map_sum id (\<lambda>(b, r). (b, lastMatch r))
     (case Route ''/users/:id'' no_options sample_types of
        Inl e \<Rightarrow> Inl e
      | Inr r0 \<Rightarrow>
          (case match r0 ''/users/42'' of
             Inl e \<Rightarrow> Inl e
           | Inr (b1, r1) \<Rightarrow> if b1 then match r1 ''/other'' else Inl TypeError))
   = Inr (False, [(''id'', JStr ''42'')])"
  by code_simp

section \<open>The compiled pattern is anchored (C2)\<close>

text \<open>
  C2, as the specification states it: for every template, a path that is a strict prefix
  of a matching path, or that extends one, is rejected. On the code, the template
  \<^verbatim>\<open>/users/:id\<close> accepts \<^verbatim>\<open>/users/42\<close> and its strict prefix \<^verbatim>\<open>/users/4\<close>; and the
  template \<^verbatim>\<open>/a|/b\<close>, whose bar reaches \<^verbatim>\<open>new RegExp\<close> unescaped, compiles to
  \<^verbatim>\<open>^\/a|\/b$\<close> and accepts \<^verbatim>\<open>/a/extra\<close>.
\<close>

theorem prefix_accepted_and_alternation_unanchored:
  "route_matches ''/users/:id'' ''/users/42'' = Inr True \<and>
   route_matches ''/users/:id'' ''/users/4'' = Inr True \<and>
   route_matches ''/a|/b'' ''/a/extra'' = Inr True"
  by (simp add: route_matches_def route_eval_defs match_eval_defs)

text \<open>
  C2, amended: for every plain template, \<^verbatim>\<open>match\<close> accepts a path only if the entire path
  matches the template; a path made from an accepted one by adding, before or after it,
  a text that contains a slash is rejected (\<^verbatim>\<open>/users/42/extra\<close> and
  \<^verbatim>\<open>/other/users/42\<close> for \<^verbatim>\<open>/users/:id\<close>), and so is, read the other way round, what
  is left of an accepted path after such a text is cut off one end.
\<close>

theorem match_anchored:
  assumes "plain_template template"
    and "normalizePath template ks0 decls = Inr (routeRe r, ks, ps)"
    and "match r path = Inr (True, r')"
  shows "template_accepts (segments template) path \<and>
         (\<forall>x. CHR ''/'' \<in> set x \<longrightarrow>
            match r (path @ x) = Inr (False, r) \<and> match r (x @ path) = Inr (False, r))"
proof -
  from assms(3) have "str_match path (routeRe r) \<noteq> None"
    by (auto simp: match_def split: option.splits)
  with plain_match_iff [OF assms(1,2)]
  have code: "accepts_with seg_char (segments template) path"
    by simp
  then have acc: "template_accepts (segments template) path"
    unfolding template_accepts_def by (rule accepts_with_mono [rotated]) (simp add: seg_char_def)
  have slash: "count_list q CHR ''/'' = slashes (segments template)"
    if "accepts_with seg_char (segments template) q" for q
    using that by (rule accepts_with_slashes [rotated]) (simp add: seg_char_def)
  have "match r q = Inr (False, r)" if "count_list q CHR ''/'' \<noteq> count_list path CHR ''/''" for q
  proof -
    from that slash [OF code]
    have "\<not> accepts_with seg_char (segments template) q"
      using slash [of q] by auto
    with plain_match_iff [OF assms(1,2), of q] have "str_match q (routeRe r) = None" by simp
    then show ?thesis by (rule match_pattern_fails)
  qed
  moreover have "count_list (path @ x) CHR ''/'' \<noteq> count_list path CHR ''/''"
    and "count_list (x @ path) CHR ''/'' \<noteq> count_list path CHR ''/''"
    if "CHR ''/'' \<in> set x" for x
    using that count_list_0_iff [of x "CHR ''/''"] by simp_all
  ultimately show ?thesis using acc by blast
qed

theorem match_anchored_witness:
  "plain_template ''/users/:id'' \<and>
   match users_route ''/users/42'' =
     Inr (True, users_route\<lparr>lastMatch := [(''id'', JStr ''42'')]\<rparr>) \<and>
   template_accepts (segments ''/users/:id'') ''/users/42'' \<and>
   match users_route (''/users/42'' @ ''/extra'') = Inr (False, users_route) \<and>
   match users_route (''/other'' @ ''/users/42'') = Inr (False, users_route)"
proof -
  have plain: "plain_template ''/users/:id''"
    by (simp add: plain_template_def special_char_def)
  note anchored = match_anchored [OF plain users_normalizePath users_route_match_42]
  from anchored have acc: "template_accepts (segments ''/users/:id'') ''/users/42''"
    by (rule conjunct1)
  from anchored have rej: "\<forall>x. CHR ''/'' \<in> set x \<longrightarrow>
      match users_route (''/users/42'' @ x) = Inr (False, users_route) \<and>
      match users_route (x @ ''/users/42'') = Inr (False, users_route)"
    by (rule conjunct2)
  have "CHR ''/'' \<in> set ''/extra''" by simp
  with rej have after: "match users_route (''/users/42'' @ ''/extra'') = Inr (False, users_route)"
    by blast
  have "CHR ''/'' \<in> set ''/other''" by simp
  with rej have before: "match users_route (''/other'' @ ''/users/42'') = Inr (False, users_route)"
    by blast
  from plain users_route_match_42 acc after before show ?thesis by blast
qed

section \<open>The shape of a violation record (C3)\<close>

text \<open>
  C3, as the specification states it: every violation record has the fields
  \<^verbatim>\<open>resource\<close>, \<^verbatim>\<open>field\<close>, \<^verbatim>\<open>source\<close> and \<^verbatim>\<open>code\<close>. The record the code pushes for
  an invalid value has no field \<^verbatim>\<open>source\<close>: the request \<open>bad_request\<close> (no body, query
  \<^verbatim>\<open>age=abc\<close>) draws a \<^verbatim>\<open>missing_field\<close> record with the four fields and an
  \<^verbatim>\<open>invalid\<close> record with \<^verbatim>\<open>resource\<close>, \<^verbatim>\<open>field\<close>, \<^verbatim>\<open>type_expected\<close> and \<^verbatim>\<open>code\<close>
  only.
\<close>

theorem invalid_record_has_no_source:
  "map_sum id (map fields \<circ> errors_sent) (decodeParams signup_route bad_request) =
     Inr [[''resource'', ''field'', ''source'', ''code''],
          [''resource'', ''field'', ''type_expected'', ''code'']]"
  by (simp add: bad_request_outcome)
     (simp add: bad_outcome_def bad_errors_def errors_sent_def fields_def)

text \<open>
  C3, amended: every violation record the validation step emits belongs to a declared
  parameter, names the route in \<^verbatim>\<open>resource\<close> and the parameter in \<^verbatim>\<open>field\<close>, and is
  of one of two shapes: the fields \<^verbatim>\<open>resource\<close>, \<^verbatim>\<open>field\<close>, \<^verbatim>\<open>source\<close>, \<^verbatim>\<open>code\<close> with
  code \<^verbatim>\<open>missing_field\<close>, or the fields \<^verbatim>\<open>resource\<close>, \<^verbatim>\<open>field\<close>, \<^verbatim>\<open>type_expected\<close>,
  \<^verbatim>\<open>code\<close> with code \<^verbatim>\<open>invalid\<close> and \<^verbatim>\<open>type_expected\<close> the display name of the
  parameter's type (and no field \<^verbatim>\<open>source\<close>).
\<close>

theorem decodeParams_violation_records:
  assumes "decodeParams r req = Inr out"
  shows "\<forall>v \<in> set (errors_sent out).
           \<exists>key param. (key, param) \<in> set (params r) \<and>
             get_field v ''resource'' = resource r \<and> get_field v ''field'' = JStr key \<and>
             ((fields v = [''resource'', ''field'', ''source'', ''code''] \<and>
               get_field v ''code'' = JStr ''missing_field'') \<or>
              (fields v = [''resource'', ''field'', ''type_expected'', ''code''] \<and>
               get_field v ''code'' = JStr ''invalid'' \<and>
               get_field v ''type_expected'' = JStr (ty_toString (ptype param))))"
proof
  fix v assume v: "v \<in> set (errors_sent out)"
  from assms obtain errors rp where
    loop: "decode_loop r (body_of req) (req_query req) (lastMatch r) (params r) ([], [])
             = Inr (errors, rp)"
    and sent: "errors_sent out = errors"
    by (rule decodeParams_cases)
  from v sent have "v \<in> set errors" by simp
  from decode_loop_shape [OF loop this]
  obtain key param where kp: "(key, param) \<in> set (params r)"
    and shape: "v = missing_field r key param \<or> v = invalid r key param"
    by auto
  from shape show "\<exists>key param. (key, param) \<in> set (params r) \<and>
             get_field v ''resource'' = resource r \<and> get_field v ''field'' = JStr key \<and>
             ((fields v = [''resource'', ''field'', ''source'', ''code''] \<and>
               get_field v ''code'' = JStr ''missing_field'') \<or>
              (fields v = [''resource'', ''field'', ''type_expected'', ''code''] \<and>
               get_field v ''code'' = JStr ''invalid'' \<and>
               get_field v ''type_expected'' = JStr (ty_toString (ptype param))))"
  proof
    assume "v = missing_field r key param"
    with kp missing_field_shape [of r key param] show ?thesis by blast
  next
    assume "v = invalid r key param"
    with kp invalid_shape [of r key param] show ?thesis by blast
  qed
qed

theorem decodeParams_violation_records_witness:
  "decodeParams signup_route bad_request = Inr bad_outcome \<and>
   bad_errors ! 1 \<in> set (errors_sent bad_outcome) \<and>
   (\<exists>key param. (key, param) \<in> set (params signup_route) \<and>
      get_field (bad_errors ! 1) ''resource'' = resource signup_route \<and>
      get_field (bad_errors ! 1) ''field'' = JStr key \<and>
      ((fields (bad_errors ! 1) = [''resource'', ''field'', ''source'', ''code''] \<and>
        get_field (bad_errors ! 1) ''code'' = JStr ''missing_field'') \<or>
       (fields (bad_errors ! 1) = [''resource'', ''field'', ''type_expected'', ''code''] \<and>
        get_field (bad_errors ! 1) ''code'' = JStr ''invalid'' \<and>
        get_field (bad_errors ! 1) ''type_expected'' = JStr (ty_toString (ptype param)))))"
proof -
  have mem: "bad_errors ! 1 \<in> set (errors_sent bad_outcome)"
    by (simp add: bad_outcome_def bad_errors_def errors_sent_def)
  from decodeParams_violation_records [OF bad_request_outcome] mem bad_request_outcome
  show ?thesis by blast
qed

section \<open>The response to a request with violations (C4)\<close>




section \<open>Every violated parameter is reported (C5)\<close>




section \<open>Capture groups and keys (C6)\<close>




section \<open>What a segment captures (C7)\<close>

text \<open>
  C7. The claim: the capture of a segment accepts every non-empty string without a slash.
  The replacement text already escapes the slash of its character class, and the second
  \<^verbatim>\<open>replace\<close> escapes it once more; the class becomes \<^verbatim>\<open>[^\\/]\<close>, which excludes the
  backslash as well. The route of \<^verbatim>\<open>/users/:id\<close> rejects the path \<^verbatim>\<open>/users/a\b\<close>, whose
  segment is non-empty and has no slash, and accepts \<^verbatim>\<open>/users/ab\<close>.
\<close>

theorem backslash_segment_rejected:
  "route_matches ''/users/:id'' (''/users/a'' @ [bslash] @ ''b'') = Inr False \<and>
   CHR ''/'' \<notin> set (''a'' @ [bslash] @ ''b'') \<and>
   route_matches ''/users/:id'' ''/users/ab'' = Inr True"
  by (simp add: route_matches_def route_eval_defs match_eval_defs)

section \<open>A URL segment declared with another source (C8)\<close>




section \<open>A name in two segments (C9)\<close>




section \<open>Exceptions of a type object during validation (C10)\<close>



end
